theory Spec2Isabelle
  imports Complex_Main "HOL-Library.Sublist"
begin

section \<open>Data model of app.py\<close>

text \<open>
  The module-level dictionary \<^verbatim>\<open>state\<close> (app.py, lines 42-50). The counters are Python
  ints that only ever hold a length, a product of lengths or a count, so they are
  naturals. \<^verbatim>\<open>progress\<close> is a Python float; it is held here as an exact real, and no
  statement below depends on its rounding.
\<close>

record run_state =
  is_running :: bool
  status :: string
  progress :: real
  current_search :: string
  current_profile :: string
  completed :: nat
  total :: nat

definition initial_state :: run_state where
  "initial_state =
     \<lparr>is_running = False, status = ''Ready to start...'', progress = 0,
      current_search = [], current_profile = [], completed = 0, total = 0\<rparr>"

text \<open>
  A profile is a Python dict. \<^verbatim>\<open>profile['name']\<close> raises KeyError when the key is
  missing, so the name is optional here (\<open>None\<close>: no such key); \<^verbatim>\<open>profile.get('directory')\<close>
  gives \<^verbatim>\<open>None\<close> both for a missing key and for a stored \<^verbatim>\<open>None\<close>.
\<close>

record profile =
  name :: "string option"
  directory :: "string option"
  path :: "string option"

text \<open>The exceptions that the modelled code can meet.\<close>

datatype py_exc =
    KeyError
  | ZeroDivisionError
  | FailSafeException
  | InjectionError
  | UnicodeDecodeError
  | TypeError
  | OverflowError

text \<open>The arguments handed to \<^verbatim>\<open>threading.Thread(target=automation_worker, args=...)\<close>.\<close>

record worker_args =
  args_fruits :: "string list"
  args_delay :: real
  args_browser :: string
  args_profiles :: "profile list"

text \<open>
  The three module-level variables: \<^verbatim>\<open>state\<close>, \<^verbatim>\<open>selected_profiles_memory\<close> and
  \<^verbatim>\<open>worker_thread\<close> (\<open>None\<close> until a thread has been started).
\<close>

record globals =
  state :: run_state
  selected_profiles_memory :: "profile list"
  worker_thread :: "worker_args option"

text \<open>
  What the process reads from its host: \<^verbatim>\<open>platform.system()\<close>, the environment variable
  \<^verbatim>\<open>DISPLAY\<close>, and the result of \<^verbatim>\<open>ChromeProfileManager().get_available_profiles()\<close>.
\<close>

record host =
  system :: string
  display :: "string option"
  available_profiles :: "profile list"

text \<open>
  The JSON body of POST /api/start. A field is \<open>None\<close> when the key is absent, and
  \<^verbatim>\<open>data.get(key, default)\<close> then supplies the default.
  The fields have the types the interface gives them: terms are strings, the delay is a
  number, profiles are objects. A body with fields of other JSON types is outside this
  model.
\<close>

record start_request =
  fruits :: "string list option"
  delay :: "real option"
  browser :: "string option"
  selectedProfiles :: "profile list option"
  useDefaultIfNoProfile :: "bool option"

record start_response =
  message :: string
  total_searches :: nat
  profiles_in_use :: "string list option"
  warning :: "string option"

text \<open>
  The outcome of POST /api/start: an error body with its status code, the 202 body, or
  an exception that leaves the handler.
\<close>

datatype start_result =
    Rejected nat string
  | Accepted nat start_response
  | Failed py_exc

section \<open>POST /api/stop\<close>

definition stop_automation :: "run_state \<Rightarrow> run_state \<times> string" where
  "stop_automation s =
     ((if is_running s
       then s\<lparr>is_running := False, status := ''Stopping automation...''\<rparr>
       else s),
      ''Stopping'')"

section \<open>POST /api/start\<close>

text \<open>Python truthiness of an optional string (\<^verbatim>\<open>os.environ.get('DISPLAY')\<close>).\<close>

definition truthy_str :: "string option \<Rightarrow> bool" where
  "truthy_str v = (case v of None \<Rightarrow> False | Some t \<Rightarrow> t \<noteq> [])"

text \<open>Lines 471-486: request body, then memory, then the discovered Default profile.\<close>

definition resolve_profiles ::
    "host \<Rightarrow> profile list \<Rightarrow> string \<Rightarrow> profile list \<Rightarrow> bool \<Rightarrow> profile list" where
  "resolve_profiles h memory browser_id request_profiles use_default =
     (if browser_id = ''chrome'' then
        (if request_profiles \<noteq> [] then request_profiles
         else if memory \<noteq> [] then memory
         else if use_default then
           (case find (\<lambda>p. directory p = Some ''Default'') (available_profiles h) of
              None \<Rightarrow> []
            | Some d \<Rightarrow> [d])
         else [])
      else [])"

text \<open>\<^verbatim>\<open>[p['name'] for p in profiles_to_use]\<close>: KeyError at the first profile without a name.\<close>

fun profile_names :: "profile list \<Rightarrow> py_exc + string list" where
  "profile_names [] = Inr []"
| "profile_names (p # ps) =
     (case name p of
        None \<Rightarrow> Inl KeyError
      | Some n \<Rightarrow> (case profile_names ps of Inl e \<Rightarrow> Inl e | Inr ns \<Rightarrow> Inr (n # ns)))"

text \<open>The texts of the error bodies and of the two warnings.\<close>

definition already_running_error :: string where
  "already_running_error = ''Automation is already running''"

definition no_fruits_error :: string where
  "no_fruits_error = ''No fruits provided''"

definition no_profiles_error :: string where
  "no_profiles_error =
     ''No Chrome profiles selected. Provide selectedProfiles in request body or call /api/apply-profiles first.''"

definition delay_warning :: string where
  "delay_warning = ''Delay was below minimum (0.5s), set to 3.0s''"

definition display_warning :: string where
  "display_warning = ''Warning: No display detected. Automation may fail on headless systems.''"

text \<open>
  Lines 461-521: the handler once the five fields of the body are read into its local
  variables \<^verbatim>\<open>fruits\<close>, \<^verbatim>\<open>delay\<close>, \<^verbatim>\<open>browser\<close>, \<^verbatim>\<open>request_profiles\<close> and \<^verbatim>\<open>use_default\<close>.
  Starting the thread is recorded as the arguments in \<open>worker_thread\<close>; the response is
  built after that, so an exception there leaves the worker started.
\<close>

definition start_with ::
    "host \<Rightarrow> globals \<Rightarrow> string list \<Rightarrow> real \<Rightarrow> string \<Rightarrow> profile list \<Rightarrow> bool
      \<Rightarrow> globals \<times> start_result" where
  "start_with h g fruits0 delay0 browser0 request_profiles use_default =
     (if fruits0 = [] then (g, Rejected 400 no_fruits_error)
      else
        let delay1 = (if delay0 < 1 / 2 then 3 else delay0);
            warning0 =
              (if delay0 < 1 / 2 then Some delay_warning
               else None);
            profiles_to_use =
              resolve_profiles h (selected_profiles_memory g) browser0 request_profiles
                use_default
        in
          if browser0 = ''chrome'' \<and> profiles_to_use = [] then
            (g, Rejected 400 no_profiles_error)
          else
            let warning1 =
                  (if system h = ''Linux'' \<and> \<not> truthy_str (display h)
                   then Some display_warning
                   else warning0);
                st = (state g)
                  \<lparr>is_running := True, status := ''Starting automation...'', progress := 0,
                   completed := 0,
                   total := length fruits0 *
                     (if profiles_to_use \<noteq> [] then length profiles_to_use else 1)\<rparr>;
                g' = g
                  \<lparr>state := st,
                   worker_thread := Some
                     \<lparr>args_fruits = fruits0, args_delay = delay1, args_browser = browser0,
                      args_profiles = profiles_to_use\<rparr>\<rparr>
            in
              if profiles_to_use \<noteq> [] \<and> browser0 = ''chrome'' then
                (case profile_names profiles_to_use of
                   Inl e \<Rightarrow> (g', Failed e)
                 | Inr ns \<Rightarrow>
                     (g', Accepted 202
                        \<lparr>message = ''Automation started'', total_searches = total st,
                         profiles_in_use = Some ns,
                         warning = (if truthy_str warning1 then warning1 else None)\<rparr>))
              else
                (g', Accepted 202
                   \<lparr>message = ''Automation started'', total_searches = total st,
                    profiles_in_use = None,
                    warning = (if truthy_str warning1 then warning1 else None)\<rparr>))"

text \<open>Lines 445-459: the guard on \<open>is_running\<close>, then the body with its defaults.\<close>

definition start_automation :: "host \<Rightarrow> globals \<Rightarrow> start_request \<Rightarrow> globals \<times> start_result" where
  "start_automation h g req =
     (if is_running (state g) then (g, Rejected 400 already_running_error)
      else
        start_with h g
          (case fruits req of None \<Rightarrow> [] | Some v \<Rightarrow> v)
          (case delay req of None \<Rightarrow> 3 | Some v \<Rightarrow> v)
          (case browser req of None \<Rightarrow> ''chrome'' | Some v \<Rightarrow> v)
          (case selectedProfiles req of None \<Rightarrow> [] | Some v \<Rightarrow> v)
          (case useDefaultIfNoProfile req of None \<Rightarrow> False | Some v \<Rightarrow> v))"

section \<open>The background worker\<close>

text \<open>
  The worker runs beside the request handlers, and possibly beside another worker, and
  it calls into two libraries that can raise. Its run therefore depends on what the rest
  of the world does meanwhile. That is a script of events, one read at each point where
  the worker meets the world:
  \<^item> before each read of \<^verbatim>\<open>state['is_running']\<close>, at the head of either loop;
  \<^item> at the four keystroke calls of one search, where the input library may raise;
  \<^item> at the sleep that ends one search, where the random jitter is drawn.
  At each of these points another thread may have written the shared state since the
  point before. An exhausted script means that nothing more happens.

  The events of the worker's own surroundings: nothing; a stop request served; the
  fail-safe or another exception raised by a keystroke call; and the number that
  \<^verbatim>\<open>random.uniform\<close> draws from the unit interval for the jitter (at a sleep; where no draw
  is given the draw is 0, and at the other points a draw counts as nothing). Something
  served during a sleep with another draw is the same run as that draw at the sleep and
  the serving at the check that follows.
\<close>

datatype env_event =
    Quiet
  | StopRequest
  | FailSafe
  | InputFailure
  | Draw real

text \<open>
  The writes of other threads. Stop (lines 529-532) only clears the flag and joins
  nothing, and start is guarded by the flag alone (line 451), so after a stop a start
  request can be accepted while this worker is still in a sleep; its locked block (lines
  495-500) resets the counters and raises the flag again, with the total it computed.
  The worker it starts, or an older worker that has not ended yet, writes the same
  dictionary (lines 283-286, 297-299, 313-315, 334-336, 348-352); such a write is given
  by the update it makes.
\<close>

datatype thread_event =
    Own env_event
  | StartServed nat
  | OtherWrite "run_state \<Rightarrow> run_state"

definition current_event :: "thread_event list \<Rightarrow> thread_event" where
  "current_event es = (case es of [] \<Rightarrow> Own Quiet | e # _ \<Rightarrow> e)"

text \<open>
  What the worker does that can be seen from outside: a write to the shared state (with
  the state as it is after the write), a call \<^verbatim>\<open>launch_browser(browser, profile_dir)\<close>,
  and one search typed and submitted (new tab, address bar, the term, Enter). The writes
  of the other threads are recorded among the effects too, so that the writes of the
  effects are all the updates of the shared state during the run, in order.
\<close>

datatype effect =
    Write run_state
  | Launch string "string option"
  | Search string

text \<open>The shared state, the local variable \<^verbatim>\<open>completed\<close>, and the effects so far.
  Below, \<open>n_searches\<close> is the local variable \<^verbatim>\<open>total_searches\<close>.\<close>

record wstate =
  shared :: run_state
  w_completed :: nat
  w_effects :: "effect list"

definition publish :: "(run_state \<Rightarrow> run_state) \<Rightarrow> wstate \<Rightarrow> wstate" where
  "publish f w =
     w\<lparr>shared := f (shared w), w_effects := w_effects w @ [Write (f (shared w))]\<rparr>"

text \<open>Lines 495-500, the locked block of an accepted start request that writes the total \<open>n\<close>.\<close>

definition begin_run :: "nat \<Rightarrow> run_state \<Rightarrow> run_state" where
  "begin_run n s =
     s\<lparr>is_running := True, status := ''Starting automation...'', progress := 0,
       completed := 0, total := n\<rparr>"

text \<open>
  What an event does to the shared state. A stop request is \<open>stop_automation\<close>; a start
  request is turned away while the flag is up and otherwise runs its locked block.
\<close>

fun observe :: "thread_event \<Rightarrow> wstate \<Rightarrow> wstate" where
  "observe (Own e) w =
     (if e = StopRequest then publish (\<lambda>s. fst (stop_automation s)) w else w)"
| "observe (StartServed n) w =
     (if is_running (shared w) then w else publish (begin_run n) w)"
| "observe (OtherWrite f) w = publish f w"

text \<open>The exception that the input library raises at a keystroke call, if any.\<close>

fun raised :: "thread_event \<Rightarrow> py_exc option" where
  "raised (Own e) =
     (if e = FailSafe then Some FailSafeException
      else if e = InputFailure then Some InjectionError
      else None)"
| "raised (StartServed n) = None"
| "raised (OtherWrite f) = None"

text \<open>
  \<^verbatim>\<open>random.uniform(0.15, 0.6)\<close> is \<^verbatim>\<open>0.15 + (0.6 - 0.15) * random()\<close>, with the draw in the
  unit interval.
\<close>

fun unit_draw :: "thread_event \<Rightarrow> real" where
  "unit_draw (Own e) = (case e of Draw u \<Rightarrow> max 0 (min 1 u) | _ \<Rightarrow> 0)"
| "unit_draw (StartServed n) = 0"
| "unit_draw (OtherWrite f) = 0"

definition jitter :: "thread_event \<Rightarrow> real" where
  "jitter e = 3 / 20 + (3 / 5 - 3 / 20) * unit_draw e"

text \<open>
  \<^verbatim>\<open>time.sleep\<close> turns its argument into a signed 64-bit count of nanoseconds and raises
  OverflowError when the seconds do not fit (CPython 3.11 on a 64-bit platform; the
  rounding of the float product at the very limit is not modelled). The other sleeps of
  the worker have fixed small arguments.
\<close>

definition sleep_limit :: real where
  "sleep_limit = 2 ^ 63 / 10 ^ 9"

definition sleep_raises :: "real \<Rightarrow> bool" where
  "sleep_raises t = (sleep_limit < t)"

text \<open>
  Lines 312-340, the body of the inner loop after its \<open>is_running\<close> check. The first
  event is what happens during the keystrokes, the second what happens at the sleep.
  \<^verbatim>\<open>state['completed']\<close> is assigned before the quotient is computed, so a division by
  zero would leave that assignment done. The sleep raises before any time passes, so
  nothing is served during a sleep that raises.
\<close>

definition search_body ::
    "nat \<Rightarrow> real \<Rightarrow> string \<Rightarrow> thread_event \<Rightarrow> thread_event \<Rightarrow> wstate \<Rightarrow> py_exc option \<times> wstate" where
  "search_body n_searches delay_s fruit e e' w =
     (let w1 = publish (\<lambda>s. s\<lparr>current_search := fruit, status := ''Searching for: '' @ fruit\<rparr>) w
      in
        (case raised e of
           Some x \<Rightarrow> (Some x, w1)
         | None \<Rightarrow>
             let w2 = observe e w1;
                 w3 = w2\<lparr>w_effects := w_effects w2 @ [Search fruit],
                        w_completed := w_completed w2 + 1\<rparr>
             in
               if n_searches = 0
               then (Some ZeroDivisionError, publish (\<lambda>s. s\<lparr>completed := w_completed w3\<rparr>) w3)
               else
                 let w4 = publish (\<lambda>s. s\<lparr>completed := w_completed w3,
                            progress := real (w_completed w3) / real n_searches * 100\<rparr>) w3;
                     sleep_time = max (1 / 10) (delay_s + jitter e')
                 in
                   if sleep_raises sleep_time then (Some OverflowError, w4)
                   else (None, observe e' w4)))"

text \<open>
  Lines 308-340. A \<^verbatim>\<open>break\<close> leaves this loop only; an exception leaves both loops. One
  turn reads three events: at the check, at the keystrokes, at the sleep.
\<close>

fun search_loop ::
    "nat \<Rightarrow> real \<Rightarrow> string list \<Rightarrow> thread_event list \<Rightarrow> wstate
      \<Rightarrow> py_exc option \<times> thread_event list \<times> wstate" where
  "search_loop n_searches delay_s [] es w = (None, es, w)"
| "search_loop n_searches delay_s (fruit # rest) es w =
     (let w1 = observe (current_event es) w in
        if \<not> is_running (shared w1) then (None, drop 1 es, w1)
        else
          (case search_body n_searches delay_s fruit (current_event (drop 1 es))
                  (current_event (drop 2 es)) w1 of
             (Some x, w2) \<Rightarrow> (Some x, drop 3 es, w2)
           | (None, w2) \<Rightarrow> search_loop n_searches delay_s rest (drop 3 es) w2))"

text \<open>Lines 289-340.\<close>

fun profile_loop ::
    "nat \<Rightarrow> real \<Rightarrow> string list \<Rightarrow> string \<Rightarrow> profile list \<Rightarrow> thread_event list \<Rightarrow> wstate
      \<Rightarrow> py_exc option \<times> thread_event list \<times> wstate" where
  "profile_loop n_searches delay_s terms browser_id [] es w = (None, es, w)"
| "profile_loop n_searches delay_s terms browser_id (p # ps) es w =
     (let w1 = observe (current_event es) w in
        if \<not> is_running (shared w1) then (None, drop 1 es, w1)
        else
          (case name p of
             None \<Rightarrow> (Some KeyError, drop 1 es, w1)
           | Some profile_name \<Rightarrow>
               let w2 = publish (\<lambda>s. s\<lparr>current_profile := profile_name,
                            status := ''Opening browser for profile: '' @ profile_name\<rparr>) w1;
                   w3 = w2\<lparr>w_effects := w_effects w2 @ [Launch browser_id (directory p)]\<rparr>
               in
                 (case search_loop n_searches delay_s terms (drop 1 es) w3 of
                    (Some x, es', w4) \<Rightarrow> (Some x, es', w4)
                  | (None, es', w4) \<Rightarrow>
                      profile_loop n_searches delay_s terms browser_id ps es' w4)))"

definition dummy_profile :: profile where
  "dummy_profile = \<lparr>name = Some ''Default'', directory = None, path = None\<rparr>"

text \<open>
  Lines 269-352, the worker among the other threads. The result is the exception that
  an \<^verbatim>\<open>except\<close> clause caught, if any, and the worker state after the \<^verbatim>\<open>finally\<close> block.
\<close>

definition worker_among_threads ::
    "string list \<Rightarrow> real \<Rightarrow> string \<Rightarrow> profile list \<Rightarrow> thread_event list \<Rightarrow> run_state
      \<Rightarrow> py_exc option \<times> wstate" where
  "worker_among_threads terms delay_s browser_id profiles es s0 =
     (let profiles1 = (if profiles = [] then [dummy_profile] else profiles);
          n_searches = length terms * length profiles1;
          w0 = publish (\<lambda>s. s\<lparr>total := n_searches, completed := 0, progress := 0\<rparr>)
                 \<lparr>shared = s0, w_completed = 0, w_effects = []\<rparr>
      in
        (case profile_loop n_searches delay_s terms browser_id profiles1 es w0 of
           (x, es', w1) \<Rightarrow>
             (x, publish (\<lambda>s. s\<lparr>is_running := False,
                    status := (if w_completed w1 = n_searches then ''Automation completed''
                               else ''Automation stopped''),
                    current_search := [], current_profile := []\<rparr>) w1)))"

text \<open>
  The worker as the only writer besides the stop handler: the same function on a script
  of its own surroundings, with no start served and no other worker during the run.
\<close>

definition automation_worker ::
    "string list \<Rightarrow> real \<Rightarrow> string \<Rightarrow> profile list \<Rightarrow> env_event list \<Rightarrow> run_state
      \<Rightarrow> py_exc option \<times> wstate" where
  "automation_worker terms delay_s browser_id profiles es s0 =
     worker_among_threads terms delay_s browser_id profiles (map Own es) s0"

text \<open>The worker that a start request has put into \<open>worker_thread\<close>, run on a script.\<close>

definition run_worker :: "worker_args \<Rightarrow> env_event list \<Rightarrow> run_state \<Rightarrow> py_exc option \<times> wstate" where
  "run_worker a es s =
     automation_worker (args_fruits a) (args_delay a) (args_browser a) (args_profiles a) es s"

text \<open>Readings of the effects.\<close>

fun writes :: "effect list \<Rightarrow> run_state list" where
  "writes [] = []"
| "writes (Write s # r) = s # writes r"
| "writes (Launch b d # r) = writes r"
| "writes (Search t # r) = writes r"

fun launches :: "effect list \<Rightarrow> (string \<times> string option) list" where
  "launches [] = []"
| "launches (Launch b d # r) = (b, d) # launches r"
| "launches (Write s # r) = launches r"
| "launches (Search t # r) = launches r"

fun searches :: "effect list \<Rightarrow> string list" where
  "searches [] = []"
| "searches (Search t # r) = t # searches r"
| "searches (Write s # r) = searches r"
| "searches (Launch b d # r) = searches r"

section \<open>The browser launcher\<close>










section \<open>The persistence adapter\<close>

text \<open>
  A JSON value as \<^verbatim>\<open>json.load\<close> returns it; \<open>JNull\<close> is Python's \<^verbatim>\<open>None\<close>. Numbers are
  exact reals here.
\<close>

datatype json =
    JNull
  | JBool bool
  | JNumber real
  | JString string
  | JArray "json list"
  | JObject "(string \<times> json) list"

text \<open>Python truthiness, as \<^verbatim>\<open>not fruits\<close> reads it.\<close>

fun truthy :: "json \<Rightarrow> bool" where
  "truthy JNull = False"
| "truthy (JBool b) = b"
| "truthy (JNumber x) = (x \<noteq> 0)"
| "truthy (JString t) = (t \<noteq> [])"
| "truthy (JArray vs) = (vs \<noteq> [])"
| "truthy (JObject kvs) = (kvs \<noteq> [])"

text \<open>
  The working directory: a name is free, or is a directory (\<^verbatim>\<open>open\<close> raises
  IsADirectoryError, which is an IOError), or is a regular file with its bytes. A \<open>char\<close>
  is a byte, and a text is held as its UTF-8 encoding.
\<close>

datatype dir_entry =
    Directory
  | Regular string

type_synonym filesystem = "string \<Rightarrow> dir_entry option"

text \<open>
  The files are opened with \<^verbatim>\<open>encoding='utf-8'\<close> and the default strict error handling,
  so reading bytes that are not well-formed UTF-8 raises UnicodeDecodeError. Well-formed
  byte sequences are those of the Unicode standard: no overlong form, no surrogate,
  nothing above U+10FFFF.
\<close>

definition continuation :: "nat \<Rightarrow> bool" where
  "continuation b = (0x80 \<le> b \<and> b \<le> 0xBF)"

fun well_formed_utf8 :: "nat list \<Rightarrow> bool" where
  "well_formed_utf8 [] = True"
| "well_formed_utf8 (b0 # bs) =
     (if b0 < 0x80 then well_formed_utf8 bs
      else if 0xC2 \<le> b0 \<and> b0 \<le> 0xDF then
        (case bs of
           b1 # r \<Rightarrow> continuation b1 \<and> well_formed_utf8 r
         | _ \<Rightarrow> False)
      else if 0xE0 \<le> b0 \<and> b0 \<le> 0xEF then
        (case bs of
           b1 # b2 # r \<Rightarrow>
             (if b0 = 0xE0 then 0xA0 \<le> b1 \<and> b1 \<le> 0xBF
              else if b0 = 0xED then 0x80 \<le> b1 \<and> b1 \<le> 0x9F
              else continuation b1) \<and>
             continuation b2 \<and> well_formed_utf8 r
         | _ \<Rightarrow> False)
      else if 0xF0 \<le> b0 \<and> b0 \<le> 0xF4 then
        (case bs of
           b1 # b2 # b3 # r \<Rightarrow>
             (if b0 = 0xF0 then 0x90 \<le> b1 \<and> b1 \<le> 0xBF
              else if b0 = 0xF4 then 0x80 \<le> b1 \<and> b1 \<le> 0x8F
              else continuation b1) \<and>
             continuation b2 \<and> continuation b3 \<and> well_formed_utf8 r
         | _ \<Rightarrow> False)
      else False)"

text \<open>
  Lines 169-176. \<open>json_dumps\<close> stands for \<^verbatim>\<open>json.dump(data, f, indent=2)\<close> of the standard
  library: the bytes it writes for a value. An IOError is caught and the file system
  stays as it was.
\<close>

definition save_to_file :: "(json \<Rightarrow> string) \<Rightarrow> filesystem \<Rightarrow> string \<Rightarrow> json \<Rightarrow> filesystem" where
  "save_to_file json_dumps fs filename data =
     (case fs filename of
        Some Directory \<Rightarrow> fs
      | _ \<Rightarrow> fs(filename \<mapsto> Regular (json_dumps data)))"

text \<open>
  Lines 179-188. \<open>json_loads\<close> stands for the parser of the standard library on a decoded
  text: \<open>None\<close> when it raises JSONDecodeError. The \<^verbatim>\<open>except\<close> clause names IOError and
  JSONDecodeError; any other exception leaves the function.
\<close>

definition load_from_file :: "(string \<Rightarrow> json option) \<Rightarrow> filesystem \<Rightarrow> string \<Rightarrow> py_exc + json" where
  "load_from_file json_loads fs filename =
     (case fs filename of
        None \<Rightarrow> Inr JNull
      | Some Directory \<Rightarrow> Inr JNull
      | Some (Regular bytes) \<Rightarrow>
          if \<not> well_formed_utf8 (map of_char bytes) then Inl UnicodeDecodeError
          else (case json_loads bytes of None \<Rightarrow> Inr JNull | Some v \<Rightarrow> Inr v))"

text \<open>GET /api/load, lines 434-442: the value of the \<^verbatim>\<open>fruits\<close> field of the response.\<close>

definition load_fruits :: "(string \<Rightarrow> json option) \<Rightarrow> filesystem \<Rightarrow> py_exc + json" where
  "load_fruits json_loads fs =
     (case load_from_file json_loads fs ''fruits.json'' of
        Inl e \<Rightarrow> Inl e
      | Inr v \<Rightarrow> Inr (if v \<noteq> JNull then v else JArray []))"

section \<open>CLI mode\<close>

text \<open>
  The terms that the worker would iterate over for a loaded value: the strings of an
  array, the characters of a string, the keys of an object. A number or a boolean has no
  \<^verbatim>\<open>len\<close> (TypeError at line 581). An array with an element that is not a string is outside
  the typed model of terms.
\<close>

fun json_string :: "json \<Rightarrow> string option" where
  "json_string (JString t) = Some t"
| "json_string v = None"

datatype cli_result =
    CliNoFruits
  | CliIllTyped
  | CliRaised py_exc
  | CliRan "py_exc option \<times> wstate"

definition terms_of_json :: "json \<Rightarrow> cli_result + string list" where
  "terms_of_json v =
     (case v of
        JArray vs \<Rightarrow>
          (if list_all (\<lambda>x. json_string x \<noteq> None) vs
           then Inr (List.map_filter json_string vs) else Inl CliIllTyped)
      | JString t \<Rightarrow> Inr (map (\<lambda>c. [c]) t)
      | JObject kvs \<Rightarrow> Inr (map fst kvs)
      | _ \<Rightarrow> Inl (CliRaised TypeError))"

text \<open>
  Lines 566-599. The run state is the module's \<^verbatim>\<open>state\<close> as the call finds it. The
  discovered profiles all carry a name.
\<close>

definition search_from_file ::
    "(string \<Rightarrow> json option) \<Rightarrow> filesystem \<Rightarrow> host \<Rightarrow> string \<Rightarrow> real \<Rightarrow> string
      \<Rightarrow> string list option \<Rightarrow> env_event list \<Rightarrow> run_state \<Rightarrow> cli_result" where
  "search_from_file json_loads fs h filename delay_s browser_id wanted es s =
     (case load_from_file json_loads fs filename of
        Inl e \<Rightarrow> CliRaised e
      | Inr v \<Rightarrow>
          if \<not> truthy v then CliNoFruits
          else
            (case terms_of_json v of
               Inl r \<Rightarrow> r
             | Inr terms \<Rightarrow>
                 let profiles =
                       (case wanted of
                          None \<Rightarrow> []
                        | Some ns \<Rightarrow>
                            if browser_id = ''chrome'' then
                              List.map_filter
                                (\<lambda>n. find (\<lambda>p. name p = Some n) (available_profiles h)) ns
                            else [])
                 in CliRan (automation_worker terms delay_s browser_id profiles es s)))"

section \<open>Invariant of the worker\<close>

text \<open>
  What holds of a worker state between any two steps of a run with search count \<open>n\<close>:
  the shared counter is the local one, the shared total is \<open>n\<close>, every state written so
  far has that total and a counter no greater than the local one, the written counters
  never fall, and one search was typed for each unit of the counter.
\<close>

definition consistent :: "nat \<Rightarrow> wstate \<Rightarrow> bool" where
  "consistent n w \<longleftrightarrow>
     completed (shared w) = w_completed w \<and> total (shared w) = n \<and>
     list_all (\<lambda>s. completed s \<le> w_completed w \<and> total s = n) (writes (w_effects w)) \<and>
     sorted (map completed (writes (w_effects w))) \<and>
     length (searches (w_effects w)) = w_completed w"

text \<open>The profiles the worker iterates over, and its search count.\<close>

definition worker_profiles :: "profile list \<Rightarrow> profile list" where
  "worker_profiles ps = (if ps = [] then [dummy_profile] else ps)"

text \<open>
  A script of the worker's own surroundings only: no start request is served during the
  run and no other worker writes.
\<close>

fun own_event :: "thread_event \<Rightarrow> bool" where
  "own_event (Own e) = True"
| "own_event (StartServed n) = False"
| "own_event (OtherWrite f) = False"

definition own_script :: "thread_event list \<Rightarrow> bool" where
  "own_script es = list_all own_event es"



section \<open>Example values\<close>

definition example_profile :: profile where
  "example_profile =
     \<lparr>name = Some ''Work'', directory = Some ''Default'', path = Some ''/chrome/Default''\<rparr>"

definition example_host :: host where
  "example_host =
     \<lparr>system = ''Linux'', display = Some '':0'', available_profiles = [example_profile]\<rparr>"

definition idle_globals :: globals where
  "idle_globals =
     \<lparr>state = initial_state, selected_profiles_memory = [], worker_thread = None\<rparr>"

definition running_state :: run_state where
  "running_state = initial_state\<lparr>is_running := True\<rparr>"

definition running_globals :: globals where
  "running_globals =
     \<lparr>state = running_state, selected_profiles_memory = [], worker_thread = None\<rparr>"

definition firefox_request :: start_request where
  "firefox_request =
     \<lparr>fruits = Some [''apple'', ''banana''], delay = Some (1 / 10), browser = Some ''firefox'',
      selectedProfiles = None, useDefaultIfNoProfile = None\<rparr>"

definition chrome_request :: start_request where
  "chrome_request =
     \<lparr>fruits = Some [''apple'', ''banana''], delay = Some 1, browser = Some ''chrome'',
      selectedProfiles = Some [example_profile], useDefaultIfNoProfile = None\<rparr>"

definition remembering_globals :: globals where
  "remembering_globals =
     \<lparr>state = initial_state, selected_profiles_memory = [example_profile],
      worker_thread = None\<rparr>"

definition bare_chrome_request :: start_request where
  "bare_chrome_request =
     \<lparr>fruits = Some [''apple'', ''banana''], delay = None, browser = None,
      selectedProfiles = None, useDefaultIfNoProfile = None\<rparr>"

definition default_chrome_request :: start_request where
  "default_chrome_request =
     \<lparr>fruits = Some [''apple'', ''banana''], delay = None, browser = None,
      selectedProfiles = Some [], useDefaultIfNoProfile = Some True\<rparr>"

definition example_document :: string where
  \<open>example_document = ''["apple"]''\<close>

definition example_loads :: "string \<Rightarrow> json option" where
  "example_loads t = (if t = example_document then Some (JArray [JString ''apple'']) else None)"

definition example_files :: filesystem where
  "example_files = (\<lambda>f. if f = ''fruits.json'' then Some (Regular example_document) else None)"

text \<open>A working directory whose \<^verbatim>\<open>fruits.json\<close> is the single byte FF.\<close>

definition undecodable_files :: filesystem where
  "undecodable_files = (\<lambda>f. if f = ''fruits.json'' then Some (Regular [CHR 0xFF]) else None)"

text \<open>
  A run that is stopped and started again under the worker: nothing at the two checks
  that open the run, a stop request served during the keystrokes of the first search, a
  start request with one term accepted during the sleep that follows; and the states
  that are written in that run, from the reset to the cleanup.
\<close>

definition restart_script :: "thread_event list" where
  "restart_script = [Own Quiet, Own Quiet, Own StopRequest, StartServed 1]"

definition restart_writes :: "run_state list" where
  "restart_writes =
     [\<lparr>is_running = True, status = ''Starting automation...'', progress = 0,
       current_search = [], current_profile = [], completed = 0, total = 3\<rparr>,
      \<lparr>is_running = True, status = ''Opening browser for profile: Default'', progress = 0,
       current_search = [], current_profile = ''Default'', completed = 0, total = 3\<rparr>,
      \<lparr>is_running = True, status = ''Searching for: apple'', progress = 0,
       current_search = ''apple'', current_profile = ''Default'', completed = 0, total = 3\<rparr>,
      \<lparr>is_running = False, status = ''Stopping automation...'', progress = 0,
       current_search = ''apple'', current_profile = ''Default'', completed = 0, total = 3\<rparr>,
      \<lparr>is_running = False, status = ''Stopping automation...'', progress = 100 / 3,
       current_search = ''apple'', current_profile = ''Default'', completed = 1, total = 3\<rparr>,
      \<lparr>is_running = True, status = ''Starting automation...'', progress = 0,
       current_search = ''apple'', current_profile = ''Default'', completed = 0, total = 1\<rparr>,
      \<lparr>is_running = True, status = ''Searching for: banana'', progress = 0,
       current_search = ''banana'', current_profile = ''Default'', completed = 0, total = 1\<rparr>,
      \<lparr>is_running = True, status = ''Searching for: banana'', progress = 200 / 3,
       current_search = ''banana'', current_profile = ''Default'', completed = 2, total = 1\<rparr>,
      \<lparr>is_running = True, status = ''Searching for: cherry'', progress = 200 / 3,
       current_search = ''cherry'', current_profile = ''Default'', completed = 2, total = 1\<rparr>,
      \<lparr>is_running = True, status = ''Searching for: cherry'', progress = 100,
       current_search = ''cherry'', current_profile = ''Default'', completed = 3, total = 1\<rparr>,
      \<lparr>is_running = False, status = ''Automation completed'', progress = 100,
       current_search = [], current_profile = [], completed = 3, total = 1\<rparr>]"

section \<open>Lemmas on the worker\<close>

lemma writes_append: "writes (xs @ ys) = writes xs @ writes ys"
  by (induction xs rule: writes.induct) simp_all

lemma launches_append: "launches (xs @ ys) = launches xs @ launches ys"
  by (induction xs rule: launches.induct) simp_all

lemma searches_append: "searches (xs @ ys) = searches xs @ searches ys"
  by (induction xs rule: searches.induct) simp_all

lemma publish_consistent:
  assumes "consistent n w"
    and "completed (f (shared w)) = completed (shared w)"
    and "total (f (shared w)) = total (shared w)"
  shows "consistent n (publish f w)"
  using assms
  by (auto simp: consistent_def publish_def writes_append searches_append list_all_iff
           sorted_append)

lemma publish_count: "w_completed (publish f w) = w_completed w"
  by (simp add: publish_def)

lemma own_drop: "own_script es \<Longrightarrow> own_script (drop k es)"
  by (auto simp: own_script_def list_all_iff dest: in_set_dropD)

lemma own_current: "own_script es \<Longrightarrow> own_event (current_event es)"
  by (cases es) (simp_all add: own_script_def current_event_def)

lemma own_map: "own_script (map Own es)"
  by (simp add: own_script_def list_all_iff)

lemma observe_consistent: "own_event e \<Longrightarrow> consistent n w \<Longrightarrow> consistent n (observe e w)"
  by (cases e) (simp_all add: publish_consistent stop_automation_def)

lemma observe_count: "w_completed (observe e w) = w_completed w"
  by (cases e) (simp_all add: publish_count)

lemma bump_consistent:
  assumes "consistent n w"
    and "completed (f (shared w)) = Suc (w_completed w)"
    and "total (f (shared w)) = total (shared w)"
  shows "consistent n
           (publish f (w\<lparr>w_effects := w_effects w @ [Search t], w_completed := Suc (w_completed w)\<rparr>))"
  using assms
  by (auto simp: consistent_def publish_def writes_append searches_append list_all_iff
           sorted_append intro: le_SucI)

lemma search_body_cases:
  assumes "search_body n d t e e' w = (x, w')"
  shows "w' = publish (\<lambda>s. s\<lparr>current_search := t, status := ''Searching for: '' @ t\<rparr>) w \<or>
         w' = publish (\<lambda>s. s\<lparr>completed := Suc (w_completed w)\<rparr>)
                ((observe e (publish (\<lambda>s. s\<lparr>current_search := t,
                     status := ''Searching for: '' @ t\<rparr>) w))
                 \<lparr>w_effects := w_effects (observe e (publish (\<lambda>s. s\<lparr>current_search := t,
                     status := ''Searching for: '' @ t\<rparr>) w)) @ [Search t],
                  w_completed := Suc (w_completed w)\<rparr>) \<or>
         w' = publish (\<lambda>s. s\<lparr>completed := Suc (w_completed w),
                   progress := real (Suc (w_completed w)) / real n * 100\<rparr>)
                ((observe e (publish (\<lambda>s. s\<lparr>current_search := t,
                     status := ''Searching for: '' @ t\<rparr>) w))
                 \<lparr>w_effects := w_effects (observe e (publish (\<lambda>s. s\<lparr>current_search := t,
                     status := ''Searching for: '' @ t\<rparr>) w)) @ [Search t],
                  w_completed := Suc (w_completed w)\<rparr>) \<or>
         w' = observe e' (publish (\<lambda>s. s\<lparr>completed := Suc (w_completed w),
                   progress := real (Suc (w_completed w)) / real n * 100\<rparr>)
                ((observe e (publish (\<lambda>s. s\<lparr>current_search := t,
                     status := ''Searching for: '' @ t\<rparr>) w))
                 \<lparr>w_effects := w_effects (observe e (publish (\<lambda>s. s\<lparr>current_search := t,
                     status := ''Searching for: '' @ t\<rparr>) w)) @ [Search t],
                  w_completed := Suc (w_completed w)\<rparr>))"
  using assms
  by (auto simp: search_body_def Let_def observe_count publish_count
           split: option.splits if_splits)

lemma search_body_consistent:
  assumes "search_body n d t e e' w = (x, w')" and "consistent n w"
    and "own_event e" and "own_event e'"
  shows "consistent n w' \<and> w_completed w \<le> w_completed w' \<and> w_completed w' \<le> Suc (w_completed w)"
proof -
  define w1 where "w1 = publish (\<lambda>s. s\<lparr>current_search := t, status := ''Searching for: '' @ t\<rparr>) w"
  define w2 where "w2 = observe e w1"
  define w3 where "w3 = w2\<lparr>w_effects := w_effects w2 @ [Search t],
      w_completed := Suc (w_completed w)\<rparr>"
  have c1: "consistent n w1" unfolding w1_def using assms(2) by (simp add: publish_consistent)
  have k1: "w_completed w1 = w_completed w" by (simp add: w1_def publish_count)
  have c2: "consistent n w2" unfolding w2_def using assms(3) c1 by (rule observe_consistent)
  have k2: "w_completed w2 = w_completed w" by (simp add: w2_def observe_count k1)
  have w3': "w3 = w2\<lparr>w_effects := w_effects w2 @ [Search t],
      w_completed := Suc (w_completed w2)\<rparr>"
    by (simp add: w3_def k2)
  have cz: "consistent n (publish (\<lambda>s. s\<lparr>completed := Suc (w_completed w)\<rparr>) w3)"
    unfolding w3' by (rule bump_consistent [OF c2]) (simp_all add: k2)
  have c4: "consistent n (publish (\<lambda>s. s\<lparr>completed := Suc (w_completed w),
      progress := real (Suc (w_completed w)) / real n * 100\<rparr>) w3)"
    unfolding w3' by (rule bump_consistent [OF c2]) (simp_all add: k2)
  have c5: "consistent n (observe e' (publish (\<lambda>s. s\<lparr>completed := Suc (w_completed w),
      progress := real (Suc (w_completed w)) / real n * 100\<rparr>) w3))"
    using assms(4) c4 by (rule observe_consistent)
  have k3: "w_completed w3 = Suc (w_completed w)" by (simp add: w3_def)
  from search_body_cases [OF assms(1)] consider
      "w' = w1"
    | "w' = publish (\<lambda>s. s\<lparr>completed := Suc (w_completed w)\<rparr>) w3"
    | "w' = publish (\<lambda>s. s\<lparr>completed := Suc (w_completed w),
         progress := real (Suc (w_completed w)) / real n * 100\<rparr>) w3"
    | "w' = observe e' (publish (\<lambda>s. s\<lparr>completed := Suc (w_completed w),
         progress := real (Suc (w_completed w)) / real n * 100\<rparr>) w3)"
    unfolding w1_def w2_def w3_def by blast
  then show ?thesis
  proof cases
    case 1
    with c1 k1 show ?thesis by simp
  next
    case 2
    with cz k3 show ?thesis by (simp add: publish_count)
  next
    case 3
    with c4 k3 show ?thesis by (simp add: publish_count)
  next
    case 4
    with c5 k3 show ?thesis by (simp add: publish_count observe_count)
  qed
qed

lemma search_loop_consistent:
  assumes "search_loop n d ts es w = (x, es', w')" and "consistent n w" and "own_script es"
  shows "consistent n w' \<and> w_completed w \<le> w_completed w' \<and>
         w_completed w' \<le> w_completed w + length ts \<and> own_script es'"
  using assms
proof (induction ts arbitrary: es w)
  case Nil
  then show ?case by simp
next
  case (Cons t ts)
  let ?w1 = "observe (current_event es) w"
  have c1: "consistent n ?w1"
    using own_current [OF Cons.prems(3)] Cons.prems(2) by (rule observe_consistent)
  have k1: "w_completed ?w1 = w_completed w" by (rule observe_count)
  show ?case
  proof (cases "is_running (shared ?w1)")
    case False
    with Cons.prems(1) have "w' = ?w1" and "es' = drop 1 es" by (simp_all add: Let_def)
    with c1 k1 own_drop [OF Cons.prems(3)] show ?thesis by simp
  next
    case True
    obtain y w2 where b: "search_body n d t (current_event (drop 1 es))
        (current_event (drop 2 es)) ?w1 = (y, w2)"
      by (cases "search_body n d t (current_event (drop 1 es)) (current_event (drop 2 es)) ?w1")
        auto
    from search_body_consistent [OF b c1 own_current [OF own_drop [OF Cons.prems(3)]]
        own_current [OF own_drop [OF Cons.prems(3)]]]
    have c2: "consistent n w2" and k2: "w_completed w \<le> w_completed w2"
      "w_completed w2 \<le> Suc (w_completed w)"
      by (simp_all add: k1)
    show ?thesis
    proof (cases y)
      case (Some exc)
      with Cons.prems(1) True b have "w' = w2" and "es' = drop 3 es" by (simp_all add: Let_def)
      with c2 k2 own_drop [OF Cons.prems(3)] show ?thesis by simp
    next
      case None
      with Cons.prems(1) True b have "search_loop n d ts (drop 3 es) w2 = (x, es', w')"
        by (simp add: Let_def)
      from Cons.IH [OF this c2 own_drop [OF Cons.prems(3)]] k2 show ?thesis by simp
    qed
  qed
qed

lemma launch_consistent:
  "consistent n w \<Longrightarrow> consistent n (w\<lparr>w_effects := w_effects w @ [Launch b d]\<rparr>)"
  by (simp add: consistent_def writes_append searches_append)

lemma profile_loop_consistent:
  assumes "profile_loop n d ts b ps es w = (x, es', w')" and "consistent n w"
    and "own_script es"
  shows "consistent n w' \<and> w_completed w \<le> w_completed w' \<and>
         w_completed w' \<le> w_completed w + length ts * length ps"
  using assms
proof (induction ps arbitrary: es w)
  case Nil
  then show ?case by simp
next
  case (Cons p ps)
  let ?w1 = "observe (current_event es) w"
  have c1: "consistent n ?w1"
    using own_current [OF Cons.prems(3)] Cons.prems(2) by (rule observe_consistent)
  have k1: "w_completed ?w1 = w_completed w" by (rule observe_count)
  show ?case
  proof (cases "is_running (shared ?w1) \<and> name p \<noteq> None")
    case False
    with Cons.prems(1) have "w' = ?w1" by (auto simp: Let_def split: option.splits if_splits)
    with c1 k1 show ?thesis by simp
  next
    case True
    then obtain pn where pn: "name p = Some pn" and run: "is_running (shared ?w1)" by auto
    define w3 where "w3 = (publish (\<lambda>s. s\<lparr>current_profile := pn,
        status := ''Opening browser for profile: '' @ pn\<rparr>) ?w1)
          \<lparr>w_effects := w_effects (publish (\<lambda>s. s\<lparr>current_profile := pn,
        status := ''Opening browser for profile: '' @ pn\<rparr>) ?w1) @ [Launch b (directory p)]\<rparr>"
    have c3: "consistent n w3" unfolding w3_def
      by (intro launch_consistent publish_consistent c1) simp_all
    have k3: "w_completed w3 = w_completed w"
      by (simp add: w3_def publish_count observe_count)
    obtain y es2 w4 where l: "search_loop n d ts (drop 1 es) w3 = (y, es2, w4)"
      by (cases "search_loop n d ts (drop 1 es) w3") auto
    from search_loop_consistent [OF l c3 own_drop [OF Cons.prems(3)]]
    have c4: "consistent n w4" and k4: "w_completed w \<le> w_completed w4"
      "w_completed w4 \<le> w_completed w + length ts" and o4: "own_script es2"
      by (simp_all add: k3)
    have step: "profile_loop n d ts b (p # ps) es w =
       (case y of Some exc \<Rightarrow> (Some exc, es2, w4) | None \<Rightarrow> profile_loop n d ts b ps es2 w4)"
      using run pn l by (simp add: Let_def w3_def split: option.splits)
    show ?thesis
    proof (cases y)
      case (Some exc)
      with Cons.prems(1) step have "w' = w4" by simp
      with c4 k4 show ?thesis by simp
    next
      case None
      with Cons.prems(1) step have "profile_loop n d ts b ps es2 w4 = (x, es', w')" by simp
      from Cons.IH [OF this c4 o4] k4 show ?thesis by simp
    qed
  qed
qed

lemma among_unfold:
  "worker_among_threads ts d b ps es s0 =
     (case profile_loop (length ts * length (worker_profiles ps)) d ts b (worker_profiles ps) es
             (publish (\<lambda>s. s\<lparr>total := length ts * length (worker_profiles ps), completed := 0,
                         progress := 0\<rparr>) \<lparr>shared = s0, w_completed = 0, w_effects = []\<rparr>) of
        (x, es', w1) \<Rightarrow>
          (x, publish (\<lambda>s. s\<lparr>is_running := False,
                 status := (if w_completed w1 = length ts * length (worker_profiles ps)
                            then ''Automation completed'' else ''Automation stopped''),
                 current_search := [], current_profile := []\<rparr>) w1))"
  by (simp add: worker_among_threads_def worker_profiles_def Let_def)

lemma reset_consistent:
  "consistent n (publish (\<lambda>s. s\<lparr>total := n, completed := 0, progress := 0\<rparr>)
     \<lparr>shared = s0, w_completed = 0, w_effects = []\<rparr>)"
  by (simp add: consistent_def publish_def)

lemma among_consistent:
  assumes "worker_among_threads ts d b ps es s0 = (x, w')" and "own_script es"
  shows "consistent (length ts * length (worker_profiles ps)) w' \<and>
         w_completed w' \<le> length ts * length (worker_profiles ps) \<and>
         \<not> is_running (shared w') \<and> current_search (shared w') = [] \<and>
         current_profile (shared w') = [] \<and>
         status (shared w') =
           (if w_completed w' = length ts * length (worker_profiles ps)
            then ''Automation completed'' else ''Automation stopped'')"
proof -
  let ?n = "length ts * length (worker_profiles ps)"
  let ?w0 = "publish (\<lambda>s. s\<lparr>total := ?n, completed := 0, progress := 0\<rparr>)
     \<lparr>shared = s0, w_completed = 0, w_effects = []\<rparr>"
  obtain y es1 w1 where l: "profile_loop ?n d ts b (worker_profiles ps) es ?w0 = (y, es1, w1)"
    by (cases "profile_loop ?n d ts b (worker_profiles ps) es ?w0") auto
  have k0: "w_completed ?w0 = 0" by (simp add: publish_count)
  from profile_loop_consistent [OF l reset_consistent assms(2)]
  have c1: "consistent ?n w1" and k1: "w_completed w1 \<le> ?n" by (simp_all add: k0)
  let ?w2 = "publish (\<lambda>s. s\<lparr>is_running := False,
                 status := (if w_completed w1 = ?n
                            then ''Automation completed'' else ''Automation stopped''),
                 current_search := [], current_profile := []\<rparr>) w1"
  have w': "w' = ?w2" using assms(1) l unfolding among_unfold by simp
  have c2: "consistent ?n ?w2" by (intro publish_consistent c1) simp_all
  have k2: "w_completed ?w2 = w_completed w1" by (rule publish_count)
  have s2: "shared ?w2 = (shared w1)\<lparr>is_running := False,
                 status := (if w_completed w1 = ?n
                            then ''Automation completed'' else ''Automation stopped''),
                 current_search := [], current_profile := []\<rparr>"
    by (simp add: publish_def)
  show ?thesis unfolding w' using c2 k1 by (simp add: k2 s2)
qed

lemma worker_consistent:
  assumes "automation_worker ts d b ps es s0 = (x, w')"
  shows "consistent (length ts * length (worker_profiles ps)) w' \<and>
         w_completed w' \<le> length ts * length (worker_profiles ps) \<and>
         \<not> is_running (shared w') \<and> current_search (shared w') = [] \<and>
         current_profile (shared w') = [] \<and>
         status (shared w') =
           (if w_completed w' = length ts * length (worker_profiles ps)
            then ''Automation completed'' else ''Automation stopped'')"
  using assms unfolding automation_worker_def by (rule among_consistent) (rule own_map)

text \<open>
  What does hold of the counters: when no start request is served during the run and no
  other worker writes, the written values of \<open>completed\<close> never fall and each is at most
  the \<open>total\<close> beside it.
\<close>

lemma counters_without_interference:
  assumes "own_script es"
  shows "sorted (map completed (writes (w_effects (snd (worker_among_threads ts d b ps es s0))))) \<and>
         list_all (\<lambda>s. completed s \<le> total s)
           (writes (w_effects (snd (worker_among_threads ts d b ps es s0))))"
proof -
  obtain x w' where r: "worker_among_threads ts d b ps es s0 = (x, w')"
    by (cases "worker_among_threads ts d b ps es s0") auto
  from among_consistent [OF r assms] show ?thesis
    unfolding r by (auto simp: consistent_def list_all_iff)
qed

section \<open>Lemmas on the start handler\<close>

lemma start_with_accepted:
  assumes "start_with h g fs d b rp ud = (g', Accepted code resp)"
  shows "fs \<noteq> [] \<and> code = 202 \<and>
         g' = g\<lparr>state := (state g)\<lparr>is_running := True, status := ''Starting automation...'',
            progress := 0, completed := 0,
            total := length fs * (if resolve_profiles h (selected_profiles_memory g) b rp ud \<noteq> [] then length (resolve_profiles h (selected_profiles_memory g) b rp ud) else 1)\<rparr>,
           worker_thread := Some \<lparr>args_fruits = fs, args_delay = (if d < 1 / 2 then 3 else d),
            args_browser = b,
            args_profiles = resolve_profiles h (selected_profiles_memory g) b rp ud\<rparr>\<rparr> \<and>
         total_searches resp = length fs * (if resolve_profiles h (selected_profiles_memory g) b rp ud \<noteq> [] then length (resolve_profiles h (selected_profiles_memory g) b rp ud) else 1) \<and>
         (d < 1 / 2 \<longrightarrow> warning resp \<noteq> None)"
  using assms
    unfolding start_with_def Let_def
    by (auto simp: truthy_str_def delay_warning_def display_warning_def split: if_splits sum.splits)

lemma start_accepted:
  assumes "start_automation h g req = (g', Accepted code resp)"
  shows "start_with h g
          (case fruits req of None \<Rightarrow> [] | Some v \<Rightarrow> v)
          (case delay req of None \<Rightarrow> 3 | Some v \<Rightarrow> v)
          (case browser req of None \<Rightarrow> ''chrome'' | Some v \<Rightarrow> v)
          (case selectedProfiles req of None \<Rightarrow> [] | Some v \<Rightarrow> v)
          (case useDefaultIfNoProfile req of None \<Rightarrow> False | Some v \<Rightarrow> v)
         = (g', Accepted code resp)"
  using assms by (cases "is_running (state g)") (simp_all add: start_automation_def)

lemma start_accepted_state:
  assumes "start_automation h g req = (g', Accepted code resp)"
  shows "state g' = begin_run (total (state g')) (state g)"
  using start_with_accepted [OF start_accepted [OF assms]]
  by (simp add: begin_run_def)

lemma worker_total:
  "total (shared (snd (automation_worker ts d b ps es s0))) = length ts * max 1 (length ps)"
proof -
  obtain x w' where r: "automation_worker ts d b ps es s0 = (x, w')"
    by (cases "automation_worker ts d b ps es s0") auto
  have "length (worker_profiles ps) = max 1 (length ps)"
    by (cases ps) (simp_all add: worker_profiles_def)
  with worker_consistent [OF r] show ?thesis
    unfolding r by (simp add: consistent_def)
qed

lemma start_with_spawns:
  assumes "fs \<noteq> []"
    and "\<not> (b = ''chrome'' \<and> resolve_profiles h (selected_profiles_memory g) b rp ud = [])"
  shows "\<exists>a. worker_thread (fst (start_with h g fs d b rp ud)) = Some a \<and>
           args_profiles a = resolve_profiles h (selected_profiles_memory g) b rp ud"
  using assms by (auto simp: start_with_def Let_def split: sum.splits)

lemma start_with_no_profiles:
  assumes "fs \<noteq> []"
    and "resolve_profiles h (selected_profiles_memory g) ''chrome'' rp ud = []"
  shows "start_with h g fs d ''chrome'' rp ud = (g, Rejected 400 no_profiles_error)"
  using assms by (simp add: start_with_def Let_def)

section \<open>Lemmas on the division and on CLI mode\<close>

lemma raised_no_zde: "raised e \<noteq> Some ZeroDivisionError"
  by (cases e) simp_all

lemma search_body_no_zde:
  "n \<noteq> 0 \<Longrightarrow> fst (search_body n d t e e' w) \<noteq> Some ZeroDivisionError"
  using raised_no_zde [of e]
  by (cases "raised e") (simp_all add: search_body_def Let_def)

lemma search_loop_no_zde:
  "n \<noteq> 0 \<Longrightarrow> fst (search_loop n d ts es w) \<noteq> Some ZeroDivisionError"
proof (induction ts arbitrary: es w)
  case Nil
  then show ?case by simp
next
  case (Cons t ts)
  let ?w1 = "observe (current_event es) w"
  obtain y w2 where b: "search_body n d t (current_event (drop 1 es))
      (current_event (drop 2 es)) ?w1 = (y, w2)"
    by (cases "search_body n d t (current_event (drop 1 es)) (current_event (drop 2 es)) ?w1")
      auto
  from search_body_no_zde [OF Cons.prems, of d t "current_event (drop 1 es)"
      "current_event (drop 2 es)" ?w1] b
  have y: "y \<noteq> Some ZeroDivisionError" by simp
  show ?case
    using y b Cons.IH [OF Cons.prems, of "drop 3 es" w2]
    by (cases y) (simp_all add: Let_def)
qed

lemma profile_loop_no_zde:
  assumes "ts = [] \<or> n \<noteq> 0"
  shows "fst (profile_loop n d ts b ps es w) \<noteq> Some ZeroDivisionError"
proof (induction ps arbitrary: es w)
  case Nil
  then show ?case by simp
next
  case (Cons p ps)
  show ?case
  proof (cases "name p")
    case None
    then show ?thesis by (simp add: Let_def)
  next
    case (Some pn)
    define w3 where "w3 = (publish (\<lambda>s. s\<lparr>current_profile := pn,
        status := ''Opening browser for profile: '' @ pn\<rparr>) (observe (current_event es) w))
          \<lparr>w_effects := w_effects (publish (\<lambda>s. s\<lparr>current_profile := pn,
        status := ''Opening browser for profile: '' @ pn\<rparr>) (observe (current_event es) w))
            @ [Launch b (directory p)]\<rparr>"
    obtain y es2 w4 where l: "search_loop n d ts (drop 1 es) w3 = (y, es2, w4)"
      by (cases "search_loop n d ts (drop 1 es) w3") auto
    have y: "y \<noteq> Some ZeroDivisionError"
    proof (cases "ts = []")
      case True
      with l show ?thesis by auto
    next
      case False
      with assms have "n \<noteq> 0" by simp
      from search_loop_no_zde [OF this, of d ts "drop 1 es" w3] l show ?thesis by simp
    qed
    show ?thesis
      using y l Some Cons.IH [of es2 w4]
      by (cases y) (simp_all add: Let_def w3_def)
  qed
qed

lemma among_no_zde: "fst (worker_among_threads ts d b ps es s0) \<noteq> Some ZeroDivisionError"
proof -
  have "ts = [] \<or> length ts * length (worker_profiles ps) \<noteq> 0"
    by (simp add: worker_profiles_def)
  from profile_loop_no_zde [OF this] show ?thesis
    unfolding among_unfold by (simp add: split_beta)
qed

lemma worker_no_zde: "fst (automation_worker ts d b ps es s0) \<noteq> Some ZeroDivisionError"
  unfolding automation_worker_def by (rule among_no_zde)

lemma map_filter_strings:
  "list_all (\<lambda>x. json_string x \<noteq> None) vs \<Longrightarrow> length (List.map_filter json_string vs) = length vs"
  by (induction vs) auto

lemma terms_of_json_nonempty:
  assumes "truthy v" and "terms_of_json v = Inr ts"
  shows "ts \<noteq> []"
proof (cases v)
  case (JArray vs)
  with assms have "list_all (\<lambda>x. json_string x \<noteq> None) vs" and "ts = List.map_filter json_string vs"
    and "vs \<noteq> []"
    by (auto simp: terms_of_json_def split: if_splits)
  with map_filter_strings [of vs] show ?thesis by auto
qed (use assms in \<open>auto simp: terms_of_json_def\<close>)

lemma terms_of_json_error:
  "terms_of_json v = Inl x \<Longrightarrow> x = CliIllTyped \<or> x = CliRaised TypeError"
  by (cases v) (auto simp: terms_of_json_def split: if_splits)

lemma cli_ran:
  assumes "search_from_file jl fs h fn d b wanted es s = CliRan r"
  shows "\<exists>ts ps. ts \<noteq> [] \<and> r = automation_worker ts d b ps es s"
proof -
  from assms obtain v where v: "load_from_file jl fs fn = Inr v" and t: "truthy v"
    by (auto simp: search_from_file_def split: sum.splits if_splits)
  from assms v t obtain ts where ts: "terms_of_json v = Inr ts"
    by (auto simp: search_from_file_def split: sum.splits dest: terms_of_json_error)
  from terms_of_json_nonempty [OF t ts] have "ts \<noteq> []" .
  moreover from assms v t ts have "\<exists>ps. r = automation_worker ts d b ps es s"
    by (auto simp: search_from_file_def Let_def)
  ultimately show ?thesis by blast
qed

section \<open>Lemmas on undisturbed runs and on the launcher\<close>











section \<open>Lemmas on the persistence adapter\<close>

text \<open>
  What does hold of saving and loading: a value saved where the name is not a directory
  is loaded back, provided the library's parser reads back what its printer wrote and
  the printer's output is well-formed UTF-8; a name that is free loads as \<^verbatim>\<open>None\<close>, which
  GET /api/load turns into the empty list; and a file of well-formed text that is not
  JSON loads as \<^verbatim>\<open>None\<close>.
\<close>

lemma save_then_load:
  assumes "fs fn \<noteq> Some Directory"
    and "jl (jd v) = Some v"
    and "well_formed_utf8 (map of_char (jd v))"
  shows "load_from_file jl (save_to_file jd fs fn v) fn = Inr v"
  using assms
  by (cases "fs fn") (auto simp: load_from_file_def save_to_file_def split: dir_entry.splits)

lemma load_missing:
  assumes "fs fn = None"
  shows "load_from_file jl fs fn = Inr JNull"
  using assms by (simp add: load_from_file_def)

lemma load_fruits_missing:
  assumes "fs ''fruits.json'' = None"
  shows "load_fruits jl fs = Inr (JArray [])"
  using assms by (simp add: load_fruits_def load_from_file_def)

lemma load_malformed_json:
  assumes "fs fn = Some (Regular bs)" and "well_formed_utf8 (map of_char bs)" and "jl bs = None"
  shows "load_from_file jl fs fn = Inr JNull"
  using assms by (simp add: load_from_file_def)

section \<open>Runs worked out\<close>

text \<open>
  Two terms, no profiles, a running state, a delay of three seconds: once with the
  fail-safe raised during the first search, once with nothing in the way.
\<close>

lemma failsafe_run:
  "fst (automation_worker [''apple'', ''banana''] 3 ''firefox'' [] [Quiet, Quiet, FailSafe]
          running_state) = Some FailSafeException \<and>
   searches (w_effects (snd (automation_worker [''apple'', ''banana''] 3 ''firefox'' []
          [Quiet, Quiet, FailSafe] running_state))) = []"
  by (simp add: automation_worker_def worker_among_threads_def dummy_profile_def Let_def
        publish_def current_event_def search_body_def running_state_def initial_state_def)

lemma complete_run:
  "searches (w_effects (snd (automation_worker [''apple'', ''banana''] 3 ''firefox'' [] []
          running_state))) = [''apple'', ''banana''] \<and>
   map completed (writes (w_effects (snd (automation_worker [''apple'', ''banana''] 3 ''firefox''
          [] [] running_state)))) = [0, 0, 0, 1, 1, 2, 2] \<and>
   map total (writes (w_effects (snd (automation_worker [''apple'', ''banana''] 3 ''firefox''
          [] [] running_state)))) = [2, 2, 2, 2, 2, 2, 2]"
  by (simp add: automation_worker_def worker_among_threads_def dummy_profile_def Let_def
        publish_def current_event_def search_body_def jitter_def sleep_raises_def
        sleep_limit_def running_state_def initial_state_def)

text \<open>
  The same run with a delay of ten thousand million seconds, which the start handler
  passes on as it is: the sleep after the first search raises, and the run ends there.
\<close>

lemma huge_delay_run:
  "fst (automation_worker [''apple'', ''banana''] (10 ^ 10) ''firefox'' [] [] running_state)
     = Some OverflowError \<and>
   searches (w_effects (snd (automation_worker [''apple'', ''banana''] (10 ^ 10) ''firefox'' []
     [] running_state))) = [''apple'']"
  by (simp add: automation_worker_def worker_among_threads_def dummy_profile_def Let_def
        publish_def current_event_def search_body_def jitter_def sleep_raises_def
        sleep_limit_def running_state_def initial_state_def)

section \<open>A worker that finds the flag down\<close>

text \<open>
  CLI mode calls the worker without setting \<open>is_running\<close>, and nothing but a start request
  sets it: a worker that begins with the flag false, with no start served meanwhile,
  leaves the outer loop at its first check, so it launches nothing and searches nothing.
\<close>

lemma profile_loop_idle:
  assumes "\<not> is_running (shared w)" and "own_event (current_event es)"
  shows "launches (w_effects (snd (snd (profile_loop n d ts b ps es w)))) = launches (w_effects w) \<and>
         searches (w_effects (snd (snd (profile_loop n d ts b ps es w)))) = searches (w_effects w)"
  using assms
  by (cases ps; cases "current_event es")
    (simp_all add: Let_def publish_def stop_automation_def launches_append searches_append)

lemma idle_worker:
  assumes "\<not> is_running s0"
  shows "launches (w_effects (snd (automation_worker ts d b ps es s0))) = [] \<and>
         searches (w_effects (snd (automation_worker ts d b ps es s0))) = []"
proof -
  let ?n = "length ts * length (worker_profiles ps)"
  let ?w0 = "publish (\<lambda>s. s\<lparr>total := ?n, completed := 0, progress := 0\<rparr>)
     \<lparr>shared = s0, w_completed = 0, w_effects = []\<rparr>"
  have "\<not> is_running (shared ?w0)" using assms by (simp add: publish_def)
  from profile_loop_idle [OF this own_current [OF own_map], of ?n d ts b "worker_profiles ps" es]
  show ?thesis
    unfolding automation_worker_def among_unfold
    by (simp add: split_beta publish_def launches_append searches_append)
qed

section \<open>Properties of the run controller\<close>

text \<open>
  C4. A start request that arrives while \<open>is_running\<close> is true is answered with HTTP 400
  and the already-running error; the run state, the remembered profile selection and the
  worker-thread reference are all left as they were, so no second worker is started.
\<close>

theorem start_while_running_rejected:
  assumes "is_running (state g)"
  shows "start_automation h g req = (g, Rejected 400 already_running_error)"
  using assms by (simp add: start_automation_def)

theorem start_while_running_rejected_witness:
  "is_running (state running_globals) \<and>
   start_automation example_host running_globals firefox_request
     = (running_globals, Rejected 400 already_running_error)"
  using start_while_running_rejected [of running_globals example_host firefox_request]
  by (simp add: running_globals_def running_state_def)

text \<open>
  C2. The claim that \<open>completed\<close> never falls and never exceeds \<open>total\<close> throughout a run
  of the worker does not hold of the code. Stop only clears the flag and start is
  guarded by the flag alone, so a start request served after a stop, while the worker is
  still in its sleep, resets the counters under it; the worker then finds the flag up
  again and goes on writing its own count. With three terms, a stop served during the
  first search and a start with one term served during the sleep that follows, the
  successive values of \<open>completed\<close> are 0, 0, 0, 0, 1, 0, 0, 2, 2, 3, 3, the last six of
  them beside a \<open>total\<close> of 1.
\<close>

theorem restart_breaks_counters:
  "map completed (writes (w_effects (snd (worker_among_threads
      [''apple'', ''banana'', ''cherry''] 3 ''firefox'' [] restart_script
      (begin_run 3 initial_state))))) = [0, 0, 0, 0, 1, 0, 0, 2, 2, 3, 3] \<and>
   map total (writes (w_effects (snd (worker_among_threads
      [''apple'', ''banana'', ''cherry''] 3 ''firefox'' [] restart_script
      (begin_run 3 initial_state))))) = [3, 3, 3, 3, 3, 1, 1, 1, 1, 1, 1] \<and>
   \<not> sorted (map completed (writes (w_effects (snd (worker_among_threads
      [''apple'', ''banana'', ''cherry''] 3 ''firefox'' [] restart_script
      (begin_run 3 initial_state)))))) \<and>
   \<not> list_all (\<lambda>s. completed s \<le> total s) (writes (w_effects (snd (worker_among_threads
      [''apple'', ''banana'', ''cherry''] 3 ''firefox'' [] restart_script
      (begin_run 3 initial_state)))))"
proof -
  have w: "writes (w_effects (snd (worker_among_threads
      [''apple'', ''banana'', ''cherry''] 3 ''firefox'' [] restart_script
      (begin_run 3 initial_state)))) = restart_writes"
    by (simp add: worker_among_threads_def dummy_profile_def Let_def publish_def
          current_event_def search_body_def jitter_def sleep_raises_def sleep_limit_def
          stop_automation_def begin_run_def initial_state_def restart_script_def
          restart_writes_def)
  show ?thesis unfolding w by (simp add: restart_writes_def)
qed

text \<open>
  C3. However the worker leaves its loops (all terms done, a stop seen, or an exception
  caught, the fail-safe among them), the state after its cleanup has \<open>is_running\<close> false
  and both \<open>current_search\<close> and \<open>current_profile\<close> empty; the status reads completed
  exactly when the number of searches done equals the total, and stopped otherwise.
\<close>

theorem worker_cleanup:
  "\<not> is_running (shared (snd (automation_worker ts d b ps es s0))) \<and>
   current_search (shared (snd (automation_worker ts d b ps es s0))) = [] \<and>
   current_profile (shared (snd (automation_worker ts d b ps es s0))) = [] \<and>
   status (shared (snd (automation_worker ts d b ps es s0))) =
     (if length (searches (w_effects (snd (automation_worker ts d b ps es s0)))) =
         total (shared (snd (automation_worker ts d b ps es s0)))
      then ''Automation completed'' else ''Automation stopped'') \<and>
   completed (shared (snd (automation_worker ts d b ps es s0))) =
     length (searches (w_effects (snd (automation_worker ts d b ps es s0))))"
proof -
  obtain x w' where r: "automation_worker ts d b ps es s0 = (x, w')"
    by (cases "automation_worker ts d b ps es s0") auto
  from worker_consistent [OF r] show ?thesis
    unfolding r by (simp add: consistent_def)
qed

theorem worker_cleanup_witness:
  "fst (automation_worker [''apple'', ''banana''] 3 ''firefox'' [] [Quiet, Quiet, FailSafe]
          running_state) = Some FailSafeException \<and>
   \<not> is_running (shared (snd (automation_worker [''apple'', ''banana''] 3 ''firefox'' []
          [Quiet, Quiet, FailSafe] running_state))) \<and>
   status (shared (snd (automation_worker [''apple'', ''banana''] 3 ''firefox'' []
          [Quiet, Quiet, FailSafe] running_state))) = ''Automation stopped'' \<and>
   status (shared (snd (automation_worker [''apple'', ''banana''] 3 ''firefox'' [] []
          running_state))) = ''Automation completed''"
proof -
  have t: "total (shared (snd (automation_worker [''apple'', ''banana''] 3 ''firefox'' [] es
          running_state))) = 2" for es
    by (simp add: worker_total)
  show ?thesis
    using worker_cleanup [of "[''apple'', ''banana'']" 3 "''firefox''" "[]"
        "[Quiet, Quiet, FailSafe]" running_state]
      worker_cleanup [of "[''apple'', ''banana'']" 3 "''firefox''" "[]" "[]" running_state]
      failsafe_run complete_run
    by (simp add: t)
qed

text \<open>
  C1. When a start request is accepted, the \<open>total\<close> of the run state right after the
  handler returns is the number of terms times the larger of one and the number of
  resolved profiles, the profiles being those handed to the worker; the response
  reports the same number, and the worker, on any script and from any state, writes the
  same \<open>total\<close> again.
\<close>

theorem start_total:
  assumes "start_automation h g req = (g', Accepted code resp)"
  shows "\<exists>a. worker_thread g' = Some a \<and> fruits req = Some (args_fruits a) \<and>
           total (state g') = length (args_fruits a) * max 1 (length (args_profiles a)) \<and>
           total_searches resp = total (state g') \<and>
           total (shared (snd (run_worker a es s))) = total (state g')"
proof -
  let ?ps = "resolve_profiles h (selected_profiles_memory g)
          (case browser req of None \<Rightarrow> ''chrome'' | Some v \<Rightarrow> v)
          (case selectedProfiles req of None \<Rightarrow> [] | Some v \<Rightarrow> v)
          (case useDefaultIfNoProfile req of None \<Rightarrow> False | Some v \<Rightarrow> v)"
  have m: "(if ?ps \<noteq> [] then length ?ps else 1) = max 1 (length ?ps)"
    by (cases ?ps) simp_all
  from start_with_accepted [OF start_accepted [OF assms]] show ?thesis
    unfolding m by (cases "fruits req") (simp_all add: run_worker_def worker_total)
qed

theorem start_total_witness:
  "\<exists>g' resp a. start_automation example_host idle_globals chrome_request = (g', Accepted 202 resp) \<and>
     worker_thread g' = Some a \<and> args_fruits a = [''apple'', ''banana''] \<and>
     args_profiles a = [example_profile] \<and> total (state g') = 2 \<and> total_searches resp = 2 \<and>
     total (shared (snd (run_worker a [] (state g')))) = 2"
proof -
  obtain g' resp where r: "start_automation example_host idle_globals chrome_request = (g', Accepted 202 resp)"
     and w: "worker_thread g' = Some \<lparr>args_fruits = [''apple'', ''banana''], args_delay = 1,
        args_browser = ''chrome'', args_profiles = [example_profile]\<rparr>"
    by (simp add: start_automation_def start_with_def example_host_def idle_globals_def
          chrome_request_def initial_state_def Let_def resolve_profiles_def truthy_str_def
          example_profile_def)
  from start_total [OF r, of "[]" "state g'"] w r show ?thesis by auto
qed

text \<open>
  C5. In an accepted start request, a delay below 0.5 is replaced by 3.0 for the worker
  and the response carries a warning; a delay of 0.5 or more goes to the worker as it
  is, and so does the default of 3.0 when the body names no delay.
\<close>

theorem delay_floor:
  assumes "start_automation h g req = (g', Accepted code resp)"
  shows "\<exists>a. worker_thread g' = Some a \<and>
           (case delay req of
              None \<Rightarrow> args_delay a = 3
            | Some d \<Rightarrow>
                (d < 1 / 2 \<longrightarrow> args_delay a = 3 \<and> warning resp \<noteq> None) \<and>
                (1 / 2 \<le> d \<longrightarrow> args_delay a = d))"
  using start_with_accepted [OF start_accepted [OF assms]]
  by (cases "delay req") simp_all

theorem delay_floor_witness:
  "\<exists>g' resp a. start_automation example_host idle_globals firefox_request = (g', Accepted 202 resp) \<and>
     delay firefox_request = Some (1 / 10) \<and> worker_thread g' = Some a \<and> args_delay a = 3 \<and>
     warning resp = Some delay_warning"
proof -
  obtain g' resp where r: "start_automation example_host idle_globals firefox_request = (g', Accepted 202 resp)"
     and w: "warning resp = Some delay_warning"
    by (simp add: start_automation_def start_with_def example_host_def idle_globals_def
          firefox_request_def initial_state_def Let_def resolve_profiles_def truthy_str_def
          delay_warning_def)
  from delay_floor [OF r] obtain a where "worker_thread g' = Some a" "args_delay a = 3"
    by (auto simp: firefox_request_def)
  with r w show ?thesis by (auto simp: firefox_request_def)
qed

text \<open>
  C6. For a start request for Chrome (named or by default) that passes the guards on
  \<open>is_running\<close> and on the terms: a non-empty list of profiles in the body is the one the
  worker gets; without it, a non-empty remembered selection is; without both, when the
  default is asked for and a discovered profile has the directory Default, the first
  such profile alone is; and when nothing is resolved the request is answered with HTTP
  400 and the no-profiles error, the globals unchanged.
\<close>

theorem profile_priority:
  assumes "\<not> is_running (state g)"
    and "fruits req = Some fs" and "fs \<noteq> []"
    and "browser req = None \<or> browser req = Some ''chrome''"
    and "rp = (case selectedProfiles req of None \<Rightarrow> [] | Some v \<Rightarrow> v)"
    and "mem = selected_profiles_memory g"
    and "ud = (case useDefaultIfNoProfile req of None \<Rightarrow> False | Some v \<Rightarrow> v)"
    and "dflt = find (\<lambda>p. directory p = Some ''Default'') (available_profiles h)"
  shows "(rp \<noteq> [] \<longrightarrow>
            (\<exists>a. worker_thread (fst (start_automation h g req)) = Some a \<and> args_profiles a = rp)) \<and>
         (rp = [] \<and> mem \<noteq> [] \<longrightarrow>
            (\<exists>a. worker_thread (fst (start_automation h g req)) = Some a \<and> args_profiles a = mem)) \<and>
         (rp = [] \<and> mem = [] \<and> ud \<and> dflt = Some d \<longrightarrow>
            (\<exists>a. worker_thread (fst (start_automation h g req)) = Some a \<and> args_profiles a = [d])) \<and>
         (rp = [] \<and> mem = [] \<and> (\<not> ud \<or> dflt = None) \<longrightarrow>
            start_automation h g req = (g, Rejected 400 no_profiles_error))"
proof -
  have b: "(case browser req of None \<Rightarrow> ''chrome'' | Some v \<Rightarrow> v) = ''chrome''"
    using assms(4) by auto
  have s: "start_automation h g req =
      start_with h g fs (case delay req of None \<Rightarrow> 3 | Some v \<Rightarrow> v) ''chrome'' rp ud"
    using assms(1,2,5,7) by (simp add: start_automation_def b)
  let ?ps = "resolve_profiles h (selected_profiles_memory g) ''chrome'' rp ud"
  have r: "?ps = (if rp \<noteq> [] then rp else if mem \<noteq> [] then mem
                  else if ud then (case dflt of None \<Rightarrow> [] | Some x \<Rightarrow> [x]) else [])"
    using assms(6,8) by (simp add: resolve_profiles_def)
  have used: "?ps \<noteq> [] \<Longrightarrow>
      \<exists>a. worker_thread (fst (start_automation h g req)) = Some a \<and> args_profiles a = ?ps"
    unfolding s using start_with_spawns [OF assms(3), of "''chrome''" h g rp ud] by simp
  have none: "?ps = [] \<Longrightarrow> start_automation h g req = (g, Rejected 400 no_profiles_error)"
    unfolding s by (rule start_with_no_profiles [OF assms(3)])
  show ?thesis
  proof (intro conjI impI)
    assume "rp \<noteq> []"
    with r used show "\<exists>a. worker_thread (fst (start_automation h g req)) = Some a \<and> args_profiles a = rp"
      by simp
  next
    assume "rp = [] \<and> mem \<noteq> []"
    with r used show "\<exists>a. worker_thread (fst (start_automation h g req)) = Some a \<and> args_profiles a = mem"
      by simp
  next
    assume "rp = [] \<and> mem = [] \<and> ud \<and> dflt = Some d"
    with r used show "\<exists>a. worker_thread (fst (start_automation h g req)) = Some a \<and> args_profiles a = [d]"
      by simp
  next
    assume "rp = [] \<and> mem = [] \<and> (\<not> ud \<or> dflt = None)"
    with r have "?ps = []" by auto
    then show "start_automation h g req = (g, Rejected 400 no_profiles_error)" by (rule none)
  qed
qed

theorem profile_priority_witness:
  "(\<exists>a. worker_thread (fst (start_automation example_host remembering_globals chrome_request)) = Some a \<and>
        args_profiles a = [example_profile]) \<and>
   (\<exists>a. worker_thread (fst (start_automation example_host remembering_globals bare_chrome_request)) = Some a \<and>
        args_profiles a = [example_profile]) \<and>
   (\<exists>a. worker_thread (fst (start_automation example_host idle_globals default_chrome_request)) = Some a \<and>
        args_profiles a = [example_profile]) \<and>
   start_automation example_host idle_globals bare_chrome_request
     = (idle_globals, Rejected 400 no_profiles_error)"
proof -
  have f: "Some example_profile =
      find (\<lambda>p. directory p = Some ''Default'') (available_profiles example_host)"
    by (simp add: example_host_def example_profile_def)
  have ri: "\<not> is_running (state remembering_globals)"
    by (simp add: remembering_globals_def initial_state_def)
  have ii: "\<not> is_running (state idle_globals)"
    by (simp add: idle_globals_def initial_state_def)
  have rm: "[example_profile] = selected_profiles_memory remembering_globals"
    by (simp add: remembering_globals_def)
  have im: "[] = selected_profiles_memory idle_globals"
    by (simp add: idle_globals_def)
  have ne: "[''apple'', ''banana''] \<noteq> []" by simp
  have 1: "\<exists>a. worker_thread (fst (start_automation example_host remembering_globals chrome_request)) = Some a \<and>
        args_profiles a = [example_profile]"
  proof -
    have c1: "fruits chrome_request = Some [''apple'', ''banana'']"
      and c2: "browser chrome_request = None \<or> browser chrome_request = Some ''chrome''"
      and c3: "[example_profile] =
        (case selectedProfiles chrome_request of None \<Rightarrow> [] | Some v \<Rightarrow> v)"
      and c4: "False =
        (case useDefaultIfNoProfile chrome_request of None \<Rightarrow> False | Some v \<Rightarrow> v)"
      by (simp_all add: chrome_request_def)
    from profile_priority [OF ri c1 ne c2 c3 rm c4 f] show ?thesis by simp
  qed
  have b1: "fruits bare_chrome_request = Some [''apple'', ''banana'']"
    and b2: "browser bare_chrome_request = None \<or> browser bare_chrome_request = Some ''chrome''"
    and b3: "[] = (case selectedProfiles bare_chrome_request of None \<Rightarrow> [] | Some v \<Rightarrow> v)"
    and b4: "False =
      (case useDefaultIfNoProfile bare_chrome_request of None \<Rightarrow> False | Some v \<Rightarrow> v)"
    by (simp_all add: bare_chrome_request_def)
  have 2: "\<exists>a. worker_thread (fst (start_automation example_host remembering_globals bare_chrome_request)) = Some a \<and>
        args_profiles a = [example_profile]"
    using profile_priority [OF ri b1 ne b2 b3 rm b4 f] by simp
  have 3: "\<exists>a. worker_thread (fst (start_automation example_host idle_globals default_chrome_request)) = Some a \<and>
        args_profiles a = [example_profile]"
  proof -
    have d1: "fruits default_chrome_request = Some [''apple'', ''banana'']"
      and d2: "browser default_chrome_request = None \<or>
               browser default_chrome_request = Some ''chrome''"
      and d3: "[] =
        (case selectedProfiles default_chrome_request of None \<Rightarrow> [] | Some v \<Rightarrow> v)"
      and d4: "True =
        (case useDefaultIfNoProfile default_chrome_request of None \<Rightarrow> False | Some v \<Rightarrow> v)"
      by (simp_all add: default_chrome_request_def)
    from profile_priority [OF ii d1 ne d2 d3 im d4 f, of example_profile] show ?thesis by simp
  qed
  have 4: "start_automation example_host idle_globals bare_chrome_request
     = (idle_globals, Rejected 400 no_profiles_error)"
    using profile_priority [OF ii b1 ne b2 b3 im b4 f] by simp
  from 1 2 3 4 show ?thesis by blast
qed

text \<open>
  C7. A stop request always answers with the same acknowledgement. On a running state it
  clears \<open>is_running\<close> and sets the stopping status; on a state that is not running it
  changes nothing; a second request, and any further one, leaves the state of the
  first and gives the same answer.
\<close>

theorem stop_idempotent:
  "snd (stop_automation s) = ''Stopping'' \<and>
   (is_running s \<longrightarrow>
      fst (stop_automation s) = s\<lparr>is_running := False, status := ''Stopping automation...''\<rparr>) \<and>
   (\<not> is_running s \<longrightarrow> fst (stop_automation s) = s) \<and>
   stop_automation (fst (stop_automation s)) = stop_automation s \<and>
   ((fst \<circ> stop_automation) ^^ Suc n) s = fst (stop_automation s)"
proof -
  have once: "stop_automation (fst (stop_automation s)) = stop_automation s" for s
    by (simp add: stop_automation_def)
  have many: "((fst \<circ> stop_automation) ^^ Suc n) s = fst (stop_automation s)"
    by (induction n) (simp_all add: once)
  show ?thesis using once many by (simp add: stop_automation_def)
qed

theorem stop_idempotent_witness:
  "is_running running_state \<and>
   fst (stop_automation running_state)
     = running_state\<lparr>is_running := False, status := ''Stopping automation...''\<rparr> \<and>
   \<not> is_running initial_state \<and>
   fst (stop_automation initial_state) = initial_state"
  using stop_idempotent [of running_state 0] stop_idempotent [of initial_state 0]
  by (simp add: running_state_def initial_state_def)

text \<open>
  C9. The worker never meets a division by zero, whatever its arguments, its script and
  the state it starts from: the quotient is only computed inside both loops, where the
  list of terms and the list of profiles (the dummy list when none were given) are not
  empty. On the two paths that call the worker the total it writes is at least one: an
  accepted start request has terms, and CLI mode returns before the call when the
  loaded value is empty.
\<close>

theorem worker_division_defined:
  "fst (automation_worker ts d b ps es s) \<noteq> Some ZeroDivisionError \<and>
   (start_automation h g req = (g', Accepted code resp) \<longrightarrow>
      (\<exists>a. worker_thread g' = Some a \<and> 1 \<le> total (shared (snd (run_worker a es s))) \<and>
           fst (run_worker a es s) \<noteq> Some ZeroDivisionError)) \<and>
   (search_from_file jl fs h fn d b wanted es s = CliRan r \<longrightarrow>
      1 \<le> total (shared (snd r)) \<and> fst r \<noteq> Some ZeroDivisionError)"
proof (intro conjI impI)
  show "fst (automation_worker ts d b ps es s) \<noteq> Some ZeroDivisionError"
    by (rule worker_no_zde)
next
  assume a: "start_automation h g req = (g', Accepted code resp)"
  from start_with_accepted [OF start_accepted [OF a]] obtain a' where
    w: "worker_thread g' = Some a'" and f: "args_fruits a' \<noteq> []"
    by auto
  have "1 \<le> total (shared (snd (run_worker a' es s)))"
    using f by (cases "args_fruits a'") (simp_all add: run_worker_def worker_total)
  moreover have "fst (run_worker a' es s) \<noteq> Some ZeroDivisionError"
    by (simp add: run_worker_def worker_no_zde)
  ultimately show "\<exists>a. worker_thread g' = Some a \<and> 1 \<le> total (shared (snd (run_worker a es s))) \<and>
           fst (run_worker a es s) \<noteq> Some ZeroDivisionError"
    using w by blast
next
  assume c: "search_from_file jl fs h fn d b wanted es s = CliRan r"
  from cli_ran [OF c] obtain ts' ps' where n: "ts' \<noteq> []" and r: "r = automation_worker ts' d b ps' es s"
    by blast
  show "1 \<le> total (shared (snd r))"
    using n unfolding r by (cases ts') (simp_all add: worker_total)
  show "fst r \<noteq> Some ZeroDivisionError"
    unfolding r by (rule worker_no_zde)
qed

theorem worker_division_defined_witness:
  "(\<exists>g' resp a. start_automation example_host idle_globals firefox_request = (g', Accepted 202 resp) \<and>
      worker_thread g' = Some a \<and> 1 \<le> total (shared (snd (run_worker a [] (state g'))))) \<and>
   (\<exists>r. search_from_file example_loads example_files example_host ''fruits.json'' 3 ''firefox''
           None [] initial_state = CliRan r \<and>
        1 \<le> total (shared (snd r)) \<and> fst r \<noteq> Some ZeroDivisionError)"
proof -
  obtain g' resp where a: "start_automation example_host idle_globals firefox_request = (g', Accepted 202 resp)"
    by (simp add: start_automation_def start_with_def example_host_def idle_globals_def
          firefox_request_def initial_state_def Let_def resolve_profiles_def truthy_str_def)
  have l: "load_from_file example_loads example_files ''fruits.json'' = Inr (JArray [JString ''apple''])"
    by (simp add: load_from_file_def example_loads_def example_files_def example_document_def
          continuation_def)
  have c: "search_from_file example_loads example_files example_host ''fruits.json'' 3 ''firefox''
           None [] initial_state = CliRan (automation_worker [''apple''] 3 ''firefox'' [] [] initial_state)"
    by (simp add: search_from_file_def l terms_of_json_def)
  from worker_division_defined [of "[]" 3 "''firefox''" "[]" "[]" "state g'" example_host
      idle_globals firefox_request g' 202 resp example_loads example_files "''fruits.json''"
      None "automation_worker [''apple''] 3 ''firefox'' [] [] initial_state"] a
  have 1: "\<exists>a. worker_thread g' = Some a \<and> 1 \<le> total (shared (snd (run_worker a [] (state g'))))"
    by blast
  from worker_division_defined [of "[]" 3 "''firefox''" "[]" "[]" initial_state example_host
      idle_globals firefox_request g' 202 resp example_loads example_files "''fruits.json''"
      None "automation_worker [''apple''] 3 ''firefox'' [] [] initial_state"] c
  have 2: "1 \<le> total (shared (snd (automation_worker [''apple''] 3 ''firefox'' [] [] initial_state))) \<and>
        fst (automation_worker [''apple''] 3 ''firefox'' [] [] initial_state) \<noteq> Some ZeroDivisionError"
    by blast
  from a 1 c 2 show ?thesis by blast
qed




text \<open>
  C8. The claim that loading a corrupt file gives an absent result and never raises does
  not hold of the code: \<^verbatim>\<open>load_from_file\<close> catches IOError and JSONDecodeError only, and a
  file whose bytes are not well-formed UTF-8 makes the read raise UnicodeDecodeError,
  which is neither. With \<^verbatim>\<open>fruits.json\<close> holding the single byte FF, both the load and
  GET /api/load end in that exception, whatever the JSON parser would do.
\<close>

theorem load_undecodable_raises:
  "load_from_file jl undecodable_files ''fruits.json'' = Inl UnicodeDecodeError \<and>
   load_fruits jl undecodable_files = Inl UnicodeDecodeError"
  by (simp add: load_fruits_def load_from_file_def undecodable_files_def)

end
